theory Spec2Isabelle
  imports Main "HOL-Library.AList" "HOL-Library.Char_ord" "HOL-Library.List_Lexorder"
begin

section \<open>Client state of the flowchart view\<close>

text \<open>
  The client keeps its mirror of the server's tree in global variables (flowchart.js,
  lines 25-37): \<open>nodeMap\<close>, \<open>parentMap\<close>, \<open>nodeStats\<close>, \<open>stableRootId\<close>,
  \<open>renderedNodes\<close> and \<open>singleNodeMode\<close>. They are the fields of the record
  \<open>state\<close>, passed to and returned by every operation.

  A node object carries the fields the server sends plus two fields the client adds:
  \<open>friendlyId\<close> (read everywhere as \<open>node.friendlyId || ''\<close>, so an absent one is the
  empty string) and the scratch flag \<open>_forceVisible\<close> (absent is \<open>False\<close>). A missing
  \<open>children\<close> array is the empty list: every read is \<open>node.children || []\<close> or is
  guarded by \<open>Array.isArray\<close>.

  \<open>nodeMap\<close> is a JavaScript object that the code enumerates (\<open>for (const id in nodeMap)\<close>,
  \<open>Object.keys(nodeMap)[0]\<close>), so it is an association list in key order: assigning to a
  new key appends, assigning to a present key keeps its place (\<open>AList.update\<close>). This is
  the enumeration order of keys that are not canonical array indices, which is what the
  content ids of the backend are taken to be. \<open>parentMap\<close> and \<open>nodeStats\<close> are only
  looked up, so they are maps. Identifiers are strings; the empty string is the falsy one.
  Counts are natural numbers.
\<close>

record node =
  contentId :: string
  name :: string
  description :: string
  status :: string
  children :: "string list"
  friendlyId :: string
  forceVisible :: bool

record stats =
  inboundCount :: nat
  outboundCount :: nat

record state =
  nodeMap :: "(string \<times> node) list"
  parentMap :: "string \<rightharpoonup> string"
  nodeStats :: "string \<rightharpoonup> stats"
  stableRootId :: "string option"
  renderedNodes :: "string set"
  singleNodeMode :: bool

text \<open>
  The two filter controls of the page. \<open>None\<close> is a control that is not in the document
  (\<open>document.getElementById(...)?.value\<close> is then \<open>undefined\<close>).
\<close>

record filters =
  connectionFilter :: "string option"
  statusFilter :: "string option"

definition MAX_RETRIES :: nat where
  "MAX_RETRIES = 5"

section \<open>Breadcrumb path\<close>





section \<open>Visibility filter\<close>

text \<open>\<open>isNodeVisible\<close> (flowchart.js, lines 238-257), with its early returns in order.\<close>

definition isNodeVisible :: "state \<Rightarrow> filters \<Rightarrow> string \<Rightarrow> bool" where
  "isNodeVisible st flt nodeId =
     (case map_of (nodeMap st) nodeId of
        None \<Rightarrow> False
      | Some nd \<Rightarrow>
          if forceVisible nd then True
          else if (case nodeStats st nodeId of
                     None \<Rightarrow> False
                   | Some s \<Rightarrow>
                       (connectionFilter flt = Some ''inbound'' \<and> inboundCount s = 0)
                       \<or> (connectionFilter flt = Some ''outbound'' \<and> outboundCount s = 0))
          then False
          else if (case statusFilter flt of
                     None \<Rightarrow> False
                   | Some f \<Rightarrow> f \<noteq> ''all'' \<and> status nd \<noteq> f)
          then False
          else True)"

section \<open>Rendering\<close>

text \<open>
  \<open>renderNode\<close> (flowchart.js, lines 565-674) builds the HTML of a node card followed by
  the container of its children's HTML. The model keeps the structure of that string and
  drops the markup: a card is \<open>RNode nodeId node children\<close>, the concatenation of the
  children's strings is the concatenation of their forests, and the empty string is the
  empty forest. \<open>renderedNodes\<close>, the set the function reads and extends, is passed in
  and returned. The children are visited in the order of a sorted copy of the list
  (\<open>(node.children || []).slice().sort()\<close>); \<open>sort\<close> on strings is the
  lexicographic order on characters, as JavaScript's default comparison is on code units.
  \<open>renderChildren\<close> is the \<open>.map(childId => renderNode(...)).join('')\<close> over that copy.
\<close>

datatype rtree = RNode string node "rtree list"

function renderNode :: "state \<Rightarrow> filters \<Rightarrow> string \<Rightarrow> nat \<Rightarrow> string set \<Rightarrow> rtree list \<times> string set"
  and renderChildren :: "state \<Rightarrow> filters \<Rightarrow> string list \<Rightarrow> nat \<Rightarrow> string set \<Rightarrow> rtree list \<times> string set"
where
  "renderNode st flt nodeId level rendered =
     (case map_of (nodeMap st) nodeId of
        None \<Rightarrow> ([], rendered)
      | Some nd \<Rightarrow>
          if \<not> forceVisible nd \<and> \<not> isNodeVisible st flt nodeId then ([], rendered)
          else if nodeId \<in> rendered then ([], rendered)
          else
            (let sortedChildren = sort (children nd) in
             if sortedChildren \<noteq> [] \<and> \<not> (singleNodeMode st \<and> level = 0) then
               (let (childNodes, rendered') =
                      renderChildren st flt sortedChildren (level + 1) (insert nodeId rendered)
                in ([RNode nodeId nd childNodes], rendered'))
             else ([RNode nodeId nd []], insert nodeId rendered)))"
| "renderChildren st flt [] level rendered = ([], rendered)"
| "renderChildren st flt (childId # rest) level rendered =
     (let (h1, r1) = renderNode st flt childId level rendered;
          (h2, r2) = renderChildren st flt rest level r1
      in (h1 @ h2, r2))"
  by pat_completeness auto

text \<open>
  The recursion ends because every card adds a key of \<open>nodeMap\<close> to \<open>renderedNodes\<close>
  that was not in it. The set only grows, which is what the call on the remaining
  children needs.
\<close>

lemma render_dom_mono:
  "renderNode_renderChildren_dom (Inl (st, flt, nodeId, level, rendered)) \<Longrightarrow>
     rendered \<subseteq> snd (renderNode st flt nodeId level rendered)"
  "renderNode_renderChildren_dom (Inr (st, flt, cs, level, rendered)) \<Longrightarrow>
     rendered \<subseteq> snd (renderChildren st flt cs level rendered)"
proof (induction rule: renderNode_renderChildren.pinduct)
  case (1 st flt nodeId level rendered)
  show ?case
  proof (cases "map_of (nodeMap st) nodeId")
    case None
    then show ?thesis using 1(1) by (simp add: renderNode.psimps)
  next
    case (Some nd)
    show ?thesis
    proof (cases "(\<not> forceVisible nd \<and> \<not> isNodeVisible st flt nodeId) \<or> nodeId \<in> rendered")
      case True
      then show ?thesis using 1(1) Some by (auto simp: renderNode.psimps)
    next
      case False
      show ?thesis
      proof (cases "sort (children nd) \<noteq> [] \<and> \<not> (singleNodeMode st \<and> level = 0)")
        case True
        have "insert nodeId rendered
              \<subseteq> snd (renderChildren st flt (sort (children nd)) (level + 1) (insert nodeId rendered))"
          using 1(2)[OF Some _ _ refl True] False by blast
        then show ?thesis using 1(1) Some False True
          by (auto simp: renderNode.psimps Let_def split: prod.splits)
      next
        case F2: False
        then show ?thesis using 1(1) Some False
          by (auto simp: renderNode.psimps Let_def)
      qed
    qed
  qed
next
  case (2 st flt level rendered)
  then show ?case by (simp add: renderChildren.psimps)
next
  case (3 st flt childId rest level rendered)
  obtain h1 r1 where e1: "renderNode st flt childId level rendered = (h1, r1)"
    by (cases "renderNode st flt childId level rendered")
  have a: "rendered \<subseteq> r1" using 3(2) e1 by simp
  have b: "r1 \<subseteq> snd (renderChildren st flt rest level r1)"
    using 3(3)[OF refl e1[symmetric]] .
  show ?case using 3(1) e1 a b
    by (auto simp: renderChildren.psimps Let_def split: prod.splits)
qed

termination renderNode
proof (relation "measures [\<lambda>x. case x of
          Inl (st, flt, nodeId, level, rendered) \<Rightarrow> card (fst ` set (nodeMap st) - rendered)
        | Inr (st, flt, cs, level, rendered) \<Rightarrow> card (fst ` set (nodeMap st) - rendered),
       \<lambda>x. case x of Inl _ \<Rightarrow> 0 | Inr (st, flt, cs, level, rendered) \<Rightarrow> Suc (length cs)]", goal_cases)
  case 1
  then show ?case by simp
next
  case (2 st flt nodeId level rendered nd sc)
  have "nodeId \<in> fst ` set (nodeMap st)"
    using 2(1) by (metis map_of_SomeD fst_conv image_eqI)
  then have "card (fst ` set (nodeMap st) - insert nodeId rendered) < card (fst ` set (nodeMap st) - rendered)"
    using 2 by (intro psubset_card_mono) auto
  then show ?case by simp
next
  case 3
  then show ?case by simp
next
  case (4 st flt childId rest level rendered x h1 r1)
  have "rendered \<subseteq> snd (renderNode st flt childId level rendered)"
    using render_dom_mono(1)[OF 4(3)] .
  then have "rendered \<subseteq> r1" using 4(1,2) by (metis snd_conv)
  then have "card (fst ` set (nodeMap st) - r1) \<le> card (fst ` set (nodeMap st) - rendered)"
    by (intro card_mono) auto
  then show ?case by auto
qed

text \<open>The node ids of the cards of a forest, in document order.\<close>

fun ids :: "rtree \<Rightarrow> string list"
  and idsl :: "rtree list \<Rightarrow> string list"
where
  "ids (RNode k nd ts) = k # idsl ts"
| "idsl [] = []"
| "idsl (t # ts) = ids t @ idsl ts"


section \<open>Statistics cache\<close>

text \<open>
  \<open>fetchAllStats\<close> (flowchart.js, lines 371-391) replaces the cache by what \<open>/stats/all\<close>
  returned; a count that is missing or falsy is 0 (\<open>stats.total_inbound_count || 0\<close>). A
  failed request and an answer that is not an object both leave the cache empty.
\<close>

record raw_stats =
  total_inbound_count :: "nat option"
  total_outbound_count :: "nat option"

datatype stats_response = StatsError | StatsUnexpected | StatsObject "string \<rightharpoonup> raw_stats"

definition orZero :: "nat option \<Rightarrow> nat" where
  "orZero v = (case v of None \<Rightarrow> 0 | Some n \<Rightarrow> n)"

definition fetchAllStats :: "stats_response \<Rightarrow> state \<Rightarrow> state" where
  "fetchAllStats r st =
     (case r of
        StatsError \<Rightarrow> st\<lparr>nodeStats := Map.empty\<rparr>
      | StatsUnexpected \<Rightarrow> st\<lparr>nodeStats := Map.empty\<rparr>
      | StatsObject allStats \<Rightarrow>
          st\<lparr>nodeStats := (\<lambda>nodeId. case allStats nodeId of
                 None \<Rightarrow> None
               | Some s \<Rightarrow> Some \<lparr>inboundCount = orZero (total_inbound_count s),
                                 outboundCount = orZero (total_outbound_count s)\<rparr>)\<rparr>)"

section \<open>Render pass on the current maps\<close>

text \<open>
  \<open>markParentsVisible\<close> is the inner function of \<open>loadAndRenderVisuals\<close> (flowchart.js,
  lines 509-517): it walks \<open>parentMap\<close> upwards and sets \<open>_forceVisible\<close> on every parent
  it finds in \<open>nodeMap\<close>. The \<open>while\<close> loop has no bound, so the function is partial:
  \<open>None\<close> is the loop that never ends.
\<close>

partial_function (option) markParentsVisible :: "state \<Rightarrow> string \<Rightarrow> state option" where
  "markParentsVisible st currentId =
     (case parentMap st currentId of
        None \<Rightarrow> Some st
      | Some parentId \<Rightarrow>
          if parentId = [] then Some st
          else
            (case map_of (nodeMap st) parentId of
               None \<Rightarrow> Some st
             | Some nd \<Rightarrow>
                 markParentsVisible
                   (st\<lparr>nodeMap := AList.update parentId (nd\<lparr>forceVisible := True\<rparr>) (nodeMap st)\<rparr>)
                   parentId))"

text \<open>
  The loop \<open>for (const nodeId in nodeMap) { if (isNodeVisible(nodeId)) markParentsVisible(nodeId); }\<close>
  (line 518) over the keys of \<open>nodeMap\<close>, which the marking does not change.
\<close>

fun markVisibleLoop :: "filters \<Rightarrow> string list \<Rightarrow> state \<Rightarrow> state option" where
  "markVisibleLoop flt [] st = Some st"
| "markVisibleLoop flt (nodeId # rest) st =
     (if isNodeVisible st flt nodeId
      then (case markParentsVisible st nodeId of
              None \<Rightarrow> None
            | Some st' \<Rightarrow> markVisibleLoop flt rest st')
      else markVisibleLoop flt rest st)"

text \<open>
  What the page shows in \<open>tree-content-wrapper\<close> after an operation, and the operation an
  operation ends by calling.
\<close>

datatype view =
    RenderingView
  | TreeView "rtree list"
  | NoMatchView
  | NoNodesView
  | NoRootView
  | LoadErrorView

datatype followUp = NoFollowUp | ReloadTree | RenderVisuals "string option" | ReloadPage

text \<open>Truthiness of an identifier that may be null or empty, and \<open>a || b\<close> on such.\<close>

definition truthy :: "string option \<Rightarrow> bool" where
  "truthy a = (case a of None \<Rightarrow> False | Some x \<Rightarrow> x \<noteq> [])"

definition orElse :: "string option \<Rightarrow> string option \<Rightarrow> string option" where
  "orElse a b = (if truthy a then a else b)"

definition firstKey :: "(string \<times> node) list \<Rightarrow> string option" where
  "firstKey nm = (case nm of [] \<Rightarrow> None | (k, v) # rest \<Rightarrow> Some k)"

definition clearForceVisible :: "(string \<times> node) list \<Rightarrow> (string \<times> node) list" where
  "clearForceVisible nm = map (\<lambda>(k, nd). (k, nd\<lparr>forceVisible := False\<rparr>)) nm"

text \<open>
  \<open>loadAndRenderVisuals\<close> (flowchart.js, lines 502-562), with the wrapper element present.
  \<open>renderAfterMarking\<close> is the function from line 520 on: the choice of the root, the
  refresh of the statistics, the rendering and the removal of the flags.
\<close>

definition renderAfterMarking ::
  "state \<Rightarrow> filters \<Rightarrow> string option \<Rightarrow> stats_response \<Rightarrow> state \<times> view \<times> followUp" where
  "renderAfterMarking st flt rootOverrideId sr =
     (let rootNodeId = orElse (orElse rootOverrideId (stableRootId st)) (firstKey (nodeMap st)) in
      if \<not> truthy rootNodeId \<or> map_of (nodeMap st) (the rootNodeId) = None then
        (st, RenderingView, if truthy (stableRootId st) then ReloadTree else NoFollowUp)
      else
            (let st1 = fetchAllStats sr st;
                 (treeHtml, rendered) = renderNode st1 flt (the rootNodeId) 0 (renderedNodes st1)
             in (st1\<lparr>nodeMap := clearForceVisible (nodeMap st1), renderedNodes := rendered\<rparr>,
                 TreeView treeHtml, NoFollowUp)))"

definition loadAndRenderVisuals ::
  "state \<Rightarrow> filters \<Rightarrow> string option \<Rightarrow> stats_response \<Rightarrow> (state \<times> view \<times> followUp) option" where
  "loadAndRenderVisuals st flt rootOverrideId sr =
     (case markVisibleLoop flt (map fst (nodeMap st)) (st\<lparr>renderedNodes := {}\<rparr>) of
        None \<Rightarrow> None
      | Some st' \<Rightarrow> Some (renderAfterMarking st' flt rootOverrideId sr))"

text \<open>
  Two relations between the state before and after the marking: a node is flagged, and two
  states differ in \<open>_forceVisible\<close> flags only, the later one having all the flags of the
  earlier.
\<close>

definition flagged :: "state \<Rightarrow> string \<Rightarrow> bool" where
  "flagged st k = (case map_of (nodeMap st) k of None \<Rightarrow> False | Some nd \<Rightarrow> forceVisible nd)"

definition flagsOnly :: "state \<Rightarrow> state \<Rightarrow> bool" where
  "flagsOnly st st' =
     (parentMap st' = parentMap st \<and> nodeStats st' = nodeStats st
      \<and> stableRootId st' = stableRootId st \<and> renderedNodes st' = renderedNodes st
      \<and> singleNodeMode st' = singleNodeMode st
      \<and> clearForceVisible (nodeMap st') = clearForceVisible (nodeMap st)
      \<and> (\<forall>k. flagged st k \<longrightarrow> flagged st' k))"

section \<open>Full reload\<close>

text \<open>
  The result of an awaited \<open>fetchWithRetry\<close> as its caller sees it: the parsed answer,
  or the error it threw.
\<close>

datatype jserror = FetchError string | TypeError | NoRootNodeError

datatype 'a fetched = Threw jserror | Got 'a

text \<open>
  The two scans of \<open>loadAndRenderTree\<close> (flowchart.js, lines 693-700). The first stores a
  copy of every node under its \<open>contentId\<close>; the second, over the same list, records for
  every child id that is truthy and resolves in the finished \<open>nodeMap\<close> the node that
  lists it.
\<close>

fun buildNodeMap :: "node list \<Rightarrow> (string \<times> node) list \<Rightarrow> (string \<times> node) list" where
  "buildNodeMap [] nm = nm"
| "buildNodeMap (nd # rest) nm = buildNodeMap rest (AList.update (contentId nd) nd nm)"

fun setParents :: "(string \<times> node) list \<Rightarrow> string \<Rightarrow> string list \<Rightarrow> (string \<rightharpoonup> string) \<Rightarrow> (string \<rightharpoonup> string)" where
  "setParents nm parent [] pm = pm"
| "setParents nm parent (childId # rest) pm =
     setParents nm parent rest
       (if childId \<noteq> [] \<and> map_of nm childId \<noteq> None then pm(childId \<mapsto> parent) else pm)"

fun buildParentMap :: "(string \<times> node) list \<Rightarrow> node list \<Rightarrow> (string \<rightharpoonup> string) \<Rightarrow> (string \<rightharpoonup> string)" where
  "buildParentMap nm [] pm = pm"
| "buildParentMap nm (nd # rest) pm =
     buildParentMap nm rest (setParents nm (contentId nd) (children nd) pm)"

text \<open>
  \<open>String(counter).padStart(2, '0')\<close>: the decimal digits of the counter, filled on the
  left with zeros up to two characters.
\<close>

definition digit :: "nat \<Rightarrow> char" where
  "digit d = char_of (48 + d)"

fun decimal :: "nat \<Rightarrow> string" where
  "decimal n = (if n < 10 then [digit n] else decimal (n div 10) @ [digit (n mod 10)])"

declare decimal.simps [simp del]

definition padStart :: "nat \<Rightarrow> char \<Rightarrow> string \<Rightarrow> string" where
  "padStart targetLength c s = replicate (targetLength - length s) c @ s"

text \<open>
  \<open>assignFriendlyIds\<close> (flowchart.js, lines 748-758) called with the answer of \<open>/tree\<close>:
  \<open>nodesInOrder\<close> holds the objects of \<open>nodeMap\<close> that the list names, one per element of
  the list (an object named twice is there twice), and the loop numbers them from 1. An
  object of \<open>nodeMap\<close> is denoted by its key.
\<close>

fun numberNodes :: "string list \<Rightarrow> nat \<Rightarrow> (string \<times> node) list \<Rightarrow> (string \<times> node) list" where
  "numberNodes [] counter nm = nm"
| "numberNodes (k # rest) counter nm =
     numberNodes rest (counter + 1)
       (AList.map_entry k (\<lambda>nd. nd\<lparr>friendlyId := padStart 2 (CHR ''0'') (decimal counter)\<rparr>) nm)"

definition assignFriendlyIds :: "node list \<Rightarrow> (string \<times> node) list \<Rightarrow> (string \<times> node) list" where
  "assignFriendlyIds orderArray nm =
     (let nodesInOrder = filter (\<lambda>k. map_of nm k \<noteq> None) (map contentId orderArray) in
      if nodesInOrder = [] then nm else numberNodes nodesInOrder 1 nm)"

text \<open>
  \<open>loadAndRenderTree\<close> (flowchart.js, lines 677-745), with the wrapper element present.
  The maps are emptied before the request is made; an error thrown in the \<open>try\<close> block,
  by the request or by the check of the root id, ends in the error view with the state
  as it is at that point.
\<close>

definition loadAndRenderTree ::
  "state \<Rightarrow> filters \<Rightarrow> node list fetched \<Rightarrow> stats_response \<Rightarrow> state \<times> view" where
  "loadAndRenderTree st flt resp sr =
     (let st0 = st\<lparr>renderedNodes := {}, nodeMap := [], parentMap := Map.empty\<rparr> in
      case resp of
        Threw e \<Rightarrow> (st0, LoadErrorView)
      | Got response \<Rightarrow>
          (case response of
             [] \<Rightarrow> (st0, NoRootView)
           | first # others \<Rightarrow>
               (let nm = buildNodeMap response [];
                    pm = buildParentMap nm response Map.empty;
                    st1 = st0\<lparr>nodeMap := assignFriendlyIds response nm, parentMap := pm\<rparr>;
                    rootNodeId = contentId first
                in if rootNodeId = [] then (st1, LoadErrorView)
                   else
                     (let st2 = fetchAllStats sr (st1\<lparr>stableRootId := Some rootNodeId\<rparr>);
                          (treeHtml, rendered) = renderNode st2 flt rootNodeId 0 (renderedNodes st2)
                      in (st2\<lparr>renderedNodes := rendered\<rparr>, TreeView treeHtml)))))"

section \<open>Search and filters\<close>










section \<open>Requests with retry\<close>

text \<open>
  \<open>fetchWithRetry\<close> (flowchart.js, lines 104-129) against a script of what the server does
  at each attempt: the request is rejected, the response is not \<open>ok\<close>, the response is
  \<open>ok\<close> and its body parses, or the response is \<open>ok\<close> and \<open>response.json()\<close> rejects.
  The function takes the global \<open>retryCount\<close> and returns it; the trace lists the requests
  made, the delays waited (in milliseconds) and, on the fatal path, the message and the
  scheduled redirect. A script that ends before the function does leaves the request
  pending.
\<close>

datatype 'a attempt = Rejected string | NotOk string | OkJson 'a | OkUnparsable string

datatype 'a retry_result = Returned 'a | FatalThrown jserror | AwaitingResponse

datatype event = Request | Wait nat | ShowFatal string | ScheduleRedirect

text \<open>
  The error caught at an attempt that fails, with the value of \<open>retryCount\<close> when the
  \<open>catch\<close> block reads it: on an \<open>ok\<close> response line 115 has already set it to 0 before
  the body is parsed.
\<close>

fun caught :: "'a attempt \<Rightarrow> nat \<Rightarrow> (string \<times> nat) option" where
  "caught (Rejected e) retryCount = Some (e, retryCount)"
| "caught (NotOk e) retryCount = Some (e, retryCount)"
| "caught (OkJson v) retryCount = None"
| "caught (OkUnparsable e) retryCount = Some (e, 0)"

fun fetchWithRetry :: "'a attempt list \<Rightarrow> nat \<Rightarrow> 'a retry_result \<times> nat \<times> event list" where
  "fetchWithRetry [] retryCount = (AwaitingResponse, retryCount, [])"
| "fetchWithRetry (a # rest) retryCount =
     (case a of
        OkJson v \<Rightarrow> (Returned v, 0, [Request])
      | _ \<Rightarrow>
          (case caught a retryCount of
             None \<Rightarrow> (AwaitingResponse, retryCount, [])
           | Some (e, rc) \<Rightarrow>
               if rc < MAX_RETRIES then
                 (let (res, rc', tr) = fetchWithRetry rest (rc + 1)
                  in (res, rc', Request # Wait (2 ^ (rc + 1) * 100) # tr))
               else (FatalThrown (FetchError e), rc, [Request, ShowFatal e, ScheduleRedirect])))"

definition retries :: "event list \<Rightarrow> nat" where
  "retries tr = length (filter (\<lambda>ev. case ev of Wait d \<Rightarrow> True | _ \<Rightarrow> False) tr)"

text \<open>The error message of an attempt, and the attempts that fail before line 115.\<close>

definition errorOf :: "'a attempt \<Rightarrow> string" where
  "errorOf a = (case a of Rejected e \<Rightarrow> e | NotOk e \<Rightarrow> e | OkJson v \<Rightarrow> [] | OkUnparsable e \<Rightarrow> e)"

definition hardFailure :: "'a attempt \<Rightarrow> bool" where
  "hardFailure a = (case a of Rejected e \<Rightarrow> True | NotOk e \<Rightarrow> True | OkJson v \<Rightarrow> False | OkUnparsable e \<Rightarrow> False)"

section \<open>Edit and delete\<close>







section \<open>The earlier renderer\<close>

text \<open>
  The second copy of the client in flowchart.js (from line 879 on) and the two unnamed
  source files hold an earlier \<open>renderNode\<close> (flowchart.js, lines 1605-1716). It sorts
  the node's own array, \<open>(node.children || []).sort()\<close> in line 1631, where the renderer
  above sorts a copy. Its \<open>isNodeVisible\<close> (lines 1107-1125) knows the connection filter
  only. The model returns the state next to the forest, since the pass writes to it.
\<close>

definition isNodeVisible_v0 :: "state \<Rightarrow> filters \<Rightarrow> string \<Rightarrow> bool" where
  "isNodeVisible_v0 st flt nodeId =
     (case map_of (nodeMap st) nodeId of
        None \<Rightarrow> False
      | Some nd \<Rightarrow>
          (case nodeStats st nodeId of
             None \<Rightarrow> True
           | Some s \<Rightarrow>
               if connectionFilter flt = Some ''inbound'' \<and> inboundCount s = 0 then False
               else if connectionFilter flt = Some ''outbound'' \<and> outboundCount s = 0 then False
               else True))"

function renderNode_v0 :: "state \<Rightarrow> filters \<Rightarrow> string \<Rightarrow> nat \<Rightarrow> string set \<Rightarrow> rtree list \<times> string set \<times> state"
  and renderChildren_v0 :: "state \<Rightarrow> filters \<Rightarrow> string list \<Rightarrow> nat \<Rightarrow> string set \<Rightarrow> rtree list \<times> string set \<times> state"
where
  "renderNode_v0 st flt nodeId level rendered =
     (case map_of (nodeMap st) nodeId of
        None \<Rightarrow> ([], rendered, st)
      | Some nd \<Rightarrow>
          if \<not> isNodeVisible_v0 st flt nodeId then ([], rendered, st)
          else if nodeId \<in> rendered then ([], rendered, st)
          else
            (let sortedChildren = sort (children nd);
                 nd' = nd\<lparr>children := sortedChildren\<rparr>;
                 st1 = st\<lparr>nodeMap := AList.update nodeId nd' (nodeMap st)\<rparr>
             in
             if sortedChildren \<noteq> [] then
               (let (childNodes, rendered', st') =
                      renderChildren_v0 st1 flt sortedChildren (level + 1) (insert nodeId rendered)
                in ([RNode nodeId nd' childNodes], rendered', st'))
             else ([RNode nodeId nd' []], insert nodeId rendered, st1)))"
| "renderChildren_v0 st flt [] level rendered = ([], rendered, st)"
| "renderChildren_v0 st flt (childId # rest) level rendered =
     (let (h1, r1, st1) = renderNode_v0 st flt childId level rendered;
          (h2, r2, st2) = renderChildren_v0 st1 flt rest level r1
      in (h1 @ h2, r2, st2))"
  by pat_completeness auto

text \<open>
  Sorting the array of a node that is in \<open>nodeMap\<close> leaves the keys as they are, so the
  recursion ends for the same reason as before.
\<close>

lemma keys_update_present:
  "map_of nm k = Some v \<Longrightarrow> fst ` set (AList.update k v' nm) = fst ` set nm"
  by (auto simp: dom_update dest!: map_of_SomeD intro: rev_image_eqI)

lemma render_v0_dom_mono:
  "renderNode_v0_renderChildren_v0_dom (Inl (st, flt, nodeId, level, rendered)) \<Longrightarrow>
     rendered \<subseteq> fst (snd (renderNode_v0 st flt nodeId level rendered))
     \<and> fst ` set (nodeMap (snd (snd (renderNode_v0 st flt nodeId level rendered)))) = fst ` set (nodeMap st)"
  "renderNode_v0_renderChildren_v0_dom (Inr (st, flt, cs, level, rendered)) \<Longrightarrow>
     rendered \<subseteq> fst (snd (renderChildren_v0 st flt cs level rendered))
     \<and> fst ` set (nodeMap (snd (snd (renderChildren_v0 st flt cs level rendered)))) = fst ` set (nodeMap st)"
proof (induction rule: renderNode_v0_renderChildren_v0.pinduct)
  case (1 st flt nodeId level rendered)
  show ?case
  proof (cases "map_of (nodeMap st) nodeId")
    case None
    then show ?thesis using 1(1) by (simp add: renderNode_v0.psimps)
  next
    case (Some nd)
    show ?thesis
    proof (cases "\<not> isNodeVisible_v0 st flt nodeId \<or> nodeId \<in> rendered")
      case True
      then show ?thesis using 1(1) Some by (auto simp: renderNode_v0.psimps)
    next
      case False
      let ?st1 = "st\<lparr>nodeMap := AList.update nodeId (nd\<lparr>children := sort (children nd)\<rparr>) (nodeMap st)\<rparr>"
      have k1: "fst ` set (nodeMap ?st1) = fst ` set (nodeMap st)"
        using keys_update_present[OF Some] by simp
      show ?thesis
      proof (cases "sort (children nd) \<noteq> []")
        case True
        obtain h r st' where e:
          "renderChildren_v0 ?st1 flt (sort (children nd)) (level + 1) (insert nodeId rendered) = (h, r, st')"
          by (cases "renderChildren_v0 ?st1 flt (sort (children nd)) (level + 1) (insert nodeId rendered)")
        have "insert nodeId rendered
              \<subseteq> fst (snd (renderChildren_v0 ?st1 flt (sort (children nd)) (level + 1) (insert nodeId rendered)))
           \<and> fst ` set (nodeMap (snd (snd (renderChildren_v0 ?st1 flt (sort (children nd)) (level + 1) (insert nodeId rendered))))) = fst ` set (nodeMap ?st1)"
          using 1(2)[OF Some _ _ refl refl refl True] False by blast
        then have ih: "insert nodeId rendered \<subseteq> r" "fst ` set (nodeMap st') = fst ` set (nodeMap st)"
          using e k1 by simp_all
        have "renderNode_v0 st flt nodeId level rendered
              = ([RNode nodeId (nd\<lparr>children := sort (children nd)\<rparr>) h], r, st')"
          using 1(1) Some False True e by (simp add: renderNode_v0.psimps Let_def)
        then show ?thesis using ih by simp
      next
        case F2: False
        then show ?thesis using 1(1) Some False k1
          by (auto simp: renderNode_v0.psimps Let_def)
      qed
    qed
  qed
next
  case (2 st flt level rendered)
  then show ?case by (simp add: renderChildren_v0.psimps)
next
  case (3 st flt childId rest level rendered)
  obtain h1 r1 st1 where e1: "renderNode_v0 st flt childId level rendered = (h1, r1, st1)"
    by (cases "renderNode_v0 st flt childId level rendered")
  have a: "rendered \<subseteq> r1" "fst ` set (nodeMap st1) = fst ` set (nodeMap st)" using 3(2) e1 by simp_all
  obtain h2 r2 st2 where e2: "renderChildren_v0 st1 flt rest level r1 = (h2, r2, st2)"
    by (cases "renderChildren_v0 st1 flt rest level r1")
  have "r1 \<subseteq> fst (snd (renderChildren_v0 st1 flt rest level r1))
        \<and> fst ` set (nodeMap (snd (snd (renderChildren_v0 st1 flt rest level r1)))) = fst ` set (nodeMap st1)"
    using 3(3)[OF refl e1[symmetric] refl] by simp
  then have b: "r1 \<subseteq> r2" "fst ` set (nodeMap st2) = fst ` set (nodeMap st)"
    using e2 a by simp_all
  have "renderChildren_v0 st flt (childId # rest) level rendered = (h1 @ h2, r2, st2)"
    using 3(1) e1 e2 by (simp add: renderChildren_v0.psimps)
  then show ?case using a b by auto
qed

termination renderNode_v0
proof (relation "measures [\<lambda>x. case x of
          Inl (st, flt, nodeId, level, rendered) \<Rightarrow> card (fst ` set (nodeMap st) - rendered)
        | Inr (st, flt, cs, level, rendered) \<Rightarrow> card (fst ` set (nodeMap st) - rendered),
       \<lambda>x. case x of Inl _ \<Rightarrow> 0 | Inr (st, flt, cs, level, rendered) \<Rightarrow> Suc (length cs)]", goal_cases)
  case 1
  then show ?case by simp
next
  case (2 st flt nodeId level rendered nd sc nd' st1)
  have "nodeId \<in> fst ` set (nodeMap st)"
    using 2(1) by (metis map_of_SomeD fst_conv image_eqI)
  then have "card (fst ` set (nodeMap st) - insert nodeId rendered) < card (fst ` set (nodeMap st) - rendered)"
    using 2 by (intro psubset_card_mono) auto
  moreover have "fst ` set (nodeMap st1) = fst ` set (nodeMap st)"
    using keys_update_present[OF 2(1)] 2 by simp
  ultimately show ?case by simp
next
  case 3
  then show ?case by simp
next
  case (4 st flt childId rest level rendered x h1 y r1 st1)
  have "rendered \<subseteq> fst (snd (renderNode_v0 st flt childId level rendered))
     \<and> fst ` set (nodeMap (snd (snd (renderNode_v0 st flt childId level rendered)))) = fst ` set (nodeMap st)"
    using render_v0_dom_mono(1)[OF 4(4)] .
  then have "rendered \<subseteq> r1" "fst ` set (nodeMap st1) = fst ` set (nodeMap st)"
    using 4(1,2,3) by (metis fst_conv snd_conv)+
  then have "card (fst ` set (nodeMap st1) - r1) \<le> card (fst ` set (nodeMap st) - rendered)"
    by (intro card_mono) auto
  then show ?case by auto
qed

section \<open>Example states\<close>

text \<open>Concrete nodes, states and answers of the server, used to instantiate the theorems below.\<close>

definition demoNode :: "string \<Rightarrow> string \<Rightarrow> string list \<Rightarrow> node" where
  "demoNode k s cs =
     \<lparr>contentId = k, name = k, description = [], status = s, children = cs,
      friendlyId = [], forceVisible = False\<rparr>"

definition statsState :: state where
  "statsState =
     \<lparr>nodeMap = [(''a'', demoNode ''a'' ''New'' []), (''b'', demoNode ''b'' ''New'' []),
                 (''c'', demoNode ''c'' ''New'' [])],
      parentMap = Map.empty,
      nodeStats = [''b'' \<mapsto> \<lparr>inboundCount = 0, outboundCount = 3\<rparr>,
                   ''c'' \<mapsto> \<lparr>inboundCount = 2, outboundCount = 0\<rparr>],
      stableRootId = Some ''a'', renderedNodes = {}, singleNodeMode = False\<rparr>"

definition emptyState :: state where
  "emptyState =
     \<lparr>nodeMap = [], parentMap = Map.empty, nodeStats = Map.empty, stableRootId = None,
      renderedNodes = {}, singleNodeMode = False\<rparr>"

definition noFilters :: filters where
  "noFilters = \<lparr>connectionFilter = Some ''all'', statusFilter = Some ''all''\<rparr>"



definition unsortedState :: state where
  "unsortedState =
     \<lparr>nodeMap = [(''r'', demoNode ''r'' ''New'' [''b'', ''a'']), (''a'', demoNode ''a'' ''New'' []),
                 (''b'', demoNode ''b'' ''New'' [])],
      parentMap = [''a'' \<mapsto> ''r'', ''b'' \<mapsto> ''r''],
      nodeStats = Map.empty,
      stableRootId = Some ''r'', renderedNodes = {}, singleNodeMode = False\<rparr>"

definition cyclePair :: "node list" where
  "cyclePair = [demoNode ''a'' ''New'' [''b''], demoNode ''b'' ''New'' [''a'']]"

definition cycleState :: state where
  "cycleState = fst (loadAndRenderTree emptyState noFilters (Got cyclePair) StatsError)"

definition completedOnly :: filters where
  "completedOnly = \<lparr>connectionFilter = Some ''all'', statusFilter = Some ''Completed''\<rparr>"

definition rootAndLeaf :: "node list" where
  "rootAndLeaf = [demoNode ''r'' ''New'' [''d''], demoNode ''d'' ''Completed'' []]"

definition reloadedState :: state where
  "reloadedState = fst (loadAndRenderTree emptyState completedOnly (Got rootAndLeaf) StatsError)"

definition twoLevelState :: state where
  "twoLevelState =
     \<lparr>nodeMap = [(''r'', demoNode ''r'' ''New'' [''d'']\<lparr>friendlyId := ''01''\<rparr>),
                 (''d'', demoNode ''d'' ''Completed'' []\<lparr>friendlyId := ''02''\<rparr>)],
      parentMap = [''d'' \<mapsto> ''r''], nodeStats = Map.empty, stableRootId = Some ''r'',
      renderedNodes = {}, singleNodeMode = False\<rparr>"


section \<open>Properties of the breadcrumb path\<close>



section \<open>Properties of the visibility filter\<close>

text \<open>
  C8. For a node of the store that is not force-visible, under a status filter that the
  node passes (or none): without an entry in the statistics cache the node is visible
  whatever the connection filter is; with an entry it is visible under the inbound filter
  exactly when its inbound count is greater than 0, and under the outbound filter exactly
  when its outbound count is greater than 0.
\<close>

theorem isNodeVisible_connection_fail_open:
  assumes "map_of (nodeMap st) nodeId = Some nd"
    and "\<not> forceVisible nd"
    and "statusFilter flt = None \<or> statusFilter flt = Some ''all'' \<or> statusFilter flt = Some (status nd)"
  shows "(nodeStats st nodeId = None \<longrightarrow> isNodeVisible st flt nodeId)
       \<and> (\<forall>s. nodeStats st nodeId = Some s \<longrightarrow>
             (connectionFilter flt = Some ''inbound'' \<longrightarrow>
                (isNodeVisible st flt nodeId \<longleftrightarrow> inboundCount s > 0))
           \<and> (connectionFilter flt = Some ''outbound'' \<longrightarrow>
                (isNodeVisible st flt nodeId \<longleftrightarrow> outboundCount s > 0)))"
  using assms by (auto simp: isNodeVisible_def)

theorem isNodeVisible_connection_fail_open_witness:
  "isNodeVisible statsState \<lparr>connectionFilter = Some ''inbound'', statusFilter = Some ''all''\<rparr> ''a''
   \<and> \<not> isNodeVisible statsState \<lparr>connectionFilter = Some ''inbound'', statusFilter = Some ''all''\<rparr> ''b''
   \<and> isNodeVisible statsState \<lparr>connectionFilter = Some ''inbound'', statusFilter = Some ''all''\<rparr> ''c''
   \<and> isNodeVisible statsState \<lparr>connectionFilter = Some ''outbound'', statusFilter = Some ''New''\<rparr> ''b''
   \<and> \<not> isNodeVisible statsState \<lparr>connectionFilter = Some ''outbound'', statusFilter = Some ''New''\<rparr> ''c''"
proof -
  let ?fi = "\<lparr>connectionFilter = Some ''inbound'', statusFilter = Some ''all''\<rparr>"
  let ?fo = "\<lparr>connectionFilter = Some ''outbound'', statusFilter = Some ''New''\<rparr>"
  have a: "map_of (nodeMap statsState) ''a'' = Some (demoNode ''a'' ''New'' [])"
    and b: "map_of (nodeMap statsState) ''b'' = Some (demoNode ''b'' ''New'' [])"
    and c: "map_of (nodeMap statsState) ''c'' = Some (demoNode ''c'' ''New'' [])"
    by (simp_all add: statsState_def)
  have nf: "\<And>k. \<not> forceVisible (demoNode k ''New'' [])" by (simp add: demoNode_def)
  have sa: "nodeStats statsState ''a'' = None"
    and sb: "nodeStats statsState ''b'' = Some \<lparr>inboundCount = 0, outboundCount = 3\<rparr>"
    and sc: "nodeStats statsState ''c'' = Some \<lparr>inboundCount = 2, outboundCount = 0\<rparr>"
    by (simp_all add: statsState_def)
  have si: "\<And>k. statusFilter ?fi = None \<or> statusFilter ?fi = Some ''all''
              \<or> statusFilter ?fi = Some (status (demoNode k ''New'' []))" by simp
  have so: "\<And>k. statusFilter ?fo = None \<or> statusFilter ?fo = Some ''all''
              \<or> statusFilter ?fo = Some (status (demoNode k ''New'' []))" by (simp add: demoNode_def)
  show ?thesis
    using isNodeVisible_connection_fail_open[OF a nf si] sa
      isNodeVisible_connection_fail_open[OF b nf si] sb
      isNodeVisible_connection_fail_open[OF c nf si] sc
      isNodeVisible_connection_fail_open[OF b nf so]
      isNodeVisible_connection_fail_open[OF c nf so]
    by simp
qed

section \<open>Properties of the full reload\<close>

lemma decimal_digit: "n < 10 \<Longrightarrow> decimal n = [digit n]"
  by (subst decimal.simps) simp















lemma fetchAllStats_fields [simp]:
  "nodeMap (fetchAllStats sr st) = nodeMap st"
  "parentMap (fetchAllStats sr st) = parentMap st"
  "stableRootId (fetchAllStats sr st) = stableRootId st"
  "renderedNodes (fetchAllStats sr st) = renderedNodes st"
  "singleNodeMode (fetchAllStats sr st) = singleNodeMode st"
  by (simp_all add: fetchAllStats_def split: stats_response.splits)

lemma loadAndRenderTree_maps:
  "nodeMap (fst (loadAndRenderTree st flt resp sr))
     = (case resp of Threw e \<Rightarrow> [] | Got ns \<Rightarrow> assignFriendlyIds ns (buildNodeMap ns []))"
  "parentMap (fst (loadAndRenderTree st flt resp sr))
     = (case resp of Threw e \<Rightarrow> Map.empty | Got ns \<Rightarrow> buildParentMap (buildNodeMap ns []) ns Map.empty)"
  by (auto simp: loadAndRenderTree_def Let_def assignFriendlyIds_def split: fetched.splits list.splits prod.splits)








section \<open>Properties of the retry wrapper\<close>

text \<open>
  Against a server whose attempts all fail before the response is found \<open>ok\<close> (the
  request is rejected, or the status is an error), the wrapper started with
  \<open>retryCount = rc\<close> makes \<open>MAX_RETRIES - rc\<close> retries with the delays
  \<open>2 ^ (rc + 1) * 100\<close>, ..., \<open>2 ^ 5 * 100\<close>, then shows the fatal message, schedules
  the redirect and throws the last error.
\<close>

lemma retries_simps [simp]:
  "retries [] = 0"
  "retries (Request # tr) = retries tr"
  "retries (Wait d # tr) = Suc (retries tr)"
  "retries (ShowFatal e # tr) = retries tr"
  "retries (ScheduleRedirect # tr) = retries tr"
  by (simp_all add: retries_def)

lemma fetchWithRetry_hard:
  "hardFailure a \<Longrightarrow>
     fetchWithRetry (a # rest) rc =
       (if rc < MAX_RETRIES
        then (case fetchWithRetry rest (rc + 1) of
                (res, rc', tr) \<Rightarrow> (res, rc', Request # Wait (2 ^ (rc + 1) * 100) # tr))
        else (FatalThrown (FetchError (errorOf a)), rc, [Request, ShowFatal (errorOf a), ScheduleRedirect]))"
  by (cases a) (simp_all add: hardFailure_def errorOf_def)

lemma fetchWithRetry_ceiling:
  "list_all hardFailure script \<Longrightarrow> rc \<le> MAX_RETRIES \<Longrightarrow> MAX_RETRIES - rc < length script \<Longrightarrow>
     fst (fetchWithRetry script rc) = FatalThrown (FetchError (errorOf (script ! (MAX_RETRIES - rc))))
     \<and> fst (snd (fetchWithRetry script rc)) = MAX_RETRIES
     \<and> snd (snd (fetchWithRetry script rc))
         = concat (map (\<lambda>k. [Request, Wait (2 ^ (k + 1) * 100)]) [rc..<MAX_RETRIES])
           @ [Request, ShowFatal (errorOf (script ! (MAX_RETRIES - rc))), ScheduleRedirect]"
proof (induction script arbitrary: rc)
  case Nil
  then show ?case by simp
next
  case (Cons a rest)
  have h: "hardFailure a" "list_all hardFailure rest" using Cons.prems(1) by simp_all
  show ?case
  proof (cases "rc < MAX_RETRIES")
    case False
    then have "rc = MAX_RETRIES" using Cons.prems(2) by simp
    then show ?thesis using h by (simp add: fetchWithRetry_hard del: fetchWithRetry.simps)
  next
    case True
    have l: "MAX_RETRIES - (rc + 1) < length rest" using Cons.prems(3) True by simp
    have e: "(a # rest) ! (MAX_RETRIES - rc) = rest ! (MAX_RETRIES - (rc + 1))"
    proof -
      have "MAX_RETRIES - rc = Suc (MAX_RETRIES - (rc + 1))" using True by simp
      then show ?thesis by simp
    qed
    have u: "[rc..<MAX_RETRIES] = rc # [rc + 1..<MAX_RETRIES]"
      using True by (simp add: upt_conv_Cons)
    from Cons.IH[OF h(2) _ l] True
    show ?thesis
      unfolding e u by (auto simp add: fetchWithRetry_hard[OF h(1)] split: prod.splits simp del: fetchWithRetry.simps)
  qed
qed

lemma fetchWithRetry_unparsable:
  "fetchWithRetry (replicate n (OkUnparsable e)) rc
     = (AwaitingResponse, (if n = 0 then rc else 1), concat (replicate n [Request, Wait 200]))"
proof (induction n arbitrary: rc)
  case 0
  then show ?case by simp
next
  case (Suc n)
  show ?case by (simp add: Suc.IH MAX_RETRIES_def)
qed

text \<open>
  C9. The ceiling does not hold for every failing request. Where every response is
  \<open>ok\<close> but its body does not parse, line 115 has reset \<open>retryCount\<close> to 0 before
  \<open>response.json()\<close> throws, so the \<open>catch\<close> block always finds \<open>retryCount < MAX_RETRIES\<close>:
  after \<open>n\<close> such attempts, for every \<open>n\<close>, the wrapper has retried \<open>n\<close> times (each
  time after 200 ms), has shown no fatal message and is making the next request.
\<close>

theorem retries_unbounded_on_unparsable_body:
  "fst (fetchWithRetry (replicate n (OkUnparsable e)) rc) = AwaitingResponse
   \<and> retries (snd (snd (fetchWithRetry (replicate n (OkUnparsable e)) rc))) = n
   \<and> ShowFatal e \<notin> set (snd (snd (fetchWithRetry (replicate n (OkUnparsable e)) rc)))"
proof -
  have "retries (concat (replicate n [Request, Wait 200])) = n" by (induction n) simp_all
  moreover have "ShowFatal e \<notin> set (concat (replicate n [Request, Wait 200]))" by (induction n) simp_all
  ultimately show ?thesis by (simp add: fetchWithRetry_unparsable)
qed


section \<open>Properties of edit and delete\<close>







section \<open>Properties of the traversal\<close>

declare renderNode.simps [simp del]

lemma idsl_append [simp]: "idsl (xs @ ys) = idsl xs @ idsl ys"
  by (induction xs) simp_all





declare renderChildren.simps(2) [simp del]











section \<open>Properties of the marking pass\<close>


lemma map_of_clearForceVisible:
  "map_of (clearForceVisible nm) k = map_option (\<lambda>nd. nd\<lparr>forceVisible := False\<rparr>) (map_of nm k)"
  by (induction nm) (auto simp: clearForceVisible_def)





lemma flagsOnly_map_of:
  assumes "flagsOnly st st'"
  shows "map_option (\<lambda>nd. nd\<lparr>forceVisible := False\<rparr>) (map_of (nodeMap st') k)
         = map_option (\<lambda>nd. nd\<lparr>forceVisible := False\<rparr>) (map_of (nodeMap st) k)"
  using assms unfolding flagsOnly_def by (metis map_of_clearForceVisible)


lemma flagsOnly_fields:
  assumes "flagsOnly st st'"
  shows "parentMap st' = parentMap st" "nodeStats st' = nodeStats st"
    "stableRootId st' = stableRootId st" "renderedNodes st' = renderedNodes st"
    "singleNodeMode st' = singleNodeMode st"
  using assms unfolding flagsOnly_def by simp_all




lemma flagsOnly_isNodeVisible:
  assumes "flagsOnly st st'" "isNodeVisible st flt k"
  shows "isNodeVisible st' flt k"
proof -
  obtain nd where nd: "map_of (nodeMap st) k = Some nd"
    using assms(2) by (cases "map_of (nodeMap st) k") (simp_all add: isNodeVisible_def)
  obtain nd' where nd': "map_of (nodeMap st') k = Some nd'"
      and eq: "nd'\<lparr>forceVisible := False\<rparr> = nd\<lparr>forceVisible := False\<rparr>"
    using flagsOnly_map_of[OF assms(1), of k] nd by (cases "map_of (nodeMap st') k") auto
  have s: "status nd' = status nd"
    using eq by (metis node.select_convs(4) node.surjective node.update_convs(7))
  have f: "forceVisible nd \<Longrightarrow> forceVisible nd'"
    using assms(1) nd nd' unfolding flagsOnly_def flagged_def
    by (metis option.simps(5))
  have st: "nodeStats st' = nodeStats st" using flagsOnly_fields(2)[OF assms(1)] .
  show ?thesis
    using assms(2) nd nd' s f st by (auto simp: isNodeVisible_def split: option.splits if_splits)
qed

lemma flagged_isNodeVisible: "flagged st k \<Longrightarrow> isNodeVisible st flt k"
  by (auto simp: flagged_def isNodeVisible_def split: option.splits)

lemma flagged_fetchAllStats [simp]: "flagged (fetchAllStats sr st) k = flagged st k"
  by (simp add: flagged_def)

lemma markParentsVisible_cycle:
  assumes "parentMap st0 a = Some b" "parentMap st0 b = Some a" "a \<noteq> []" "b \<noteq> []"
    and "map_of (nodeMap st0) a \<noteq> None" "map_of (nodeMap st0) b \<noteq> None"
  shows "markParentsVisible st0 a = None"
proof (rule ccontr)
  assume "markParentsVisible st0 a \<noteq> None"
  then obtain r where r: "markParentsVisible st0 a = Some r" by blast
  let ?inv = "\<lambda>st c. parentMap st a = Some b \<and> parentMap st b = Some a
      \<and> map_of (nodeMap st) a \<noteq> None \<and> map_of (nodeMap st) b \<noteq> None \<and> (c = a \<or> c = b)"
  have "\<not> ?inv st0 a"
  proof (rule markParentsVisible.raw_induct[where P = "\<lambda>st c st'. \<not> ?inv st c", OF _ r], goal_cases)
    case (1 f st c st')
    show ?case
    proof
      assume inv: "?inv st c"
      define p where "p = (if c = a then b else a)"
      have pm: "parentMap st c = Some p" using inv by (auto simp: p_def)
      have pne: "p \<noteq> []" using assms(3,4) by (simp add: p_def)
      obtain nd where nd: "map_of (nodeMap st) p = Some nd" using inv by (auto simp: p_def)
      let ?st1 = "st\<lparr>nodeMap := AList.update p (nd\<lparr>forceVisible := True\<rparr>) (nodeMap st)\<rparr>"
      have call: "f ?st1 p = Some st'" using 1(2) pm pne nd by simp
      have "?inv ?st1 p" using inv by (auto simp: p_def update_conv')
      then show False using 1(1)[OF call] by blast
    qed
  qed
  then show False using assms by simp
qed


lemma isNodeVisible_frame [simp]:
  "isNodeVisible (st\<lparr>renderedNodes := r\<rparr>) flt k = isNodeVisible st flt k"
  "isNodeVisible (st\<lparr>singleNodeMode := m\<rparr>) flt k = isNodeVisible st flt k"
  "isNodeVisible (st\<lparr>stableRootId := s\<rparr>) flt k = isNodeVisible st flt k"
  by (simp_all add: isNodeVisible_def split: option.splits)

lemma pad1: "padStart 2 (CHR ''0'') (decimal (Suc 0)) = ''01''" by code_simp

lemma pad2: "padStart 2 (CHR ''0'') (decimal (Suc (Suc 0))) = ''02''" by code_simp

lemma cycleState_fields:
  "nodeMap cycleState = [(''a'', demoNode ''a'' ''New'' [''b'']\<lparr>friendlyId := ''01''\<rparr>),
                          (''b'', demoNode ''b'' ''New'' [''a'']\<lparr>friendlyId := ''02''\<rparr>)]"
  "parentMap cycleState ''a'' = Some ''b''"
  "parentMap cycleState ''b'' = Some ''a''"
  by (simp_all add: cycleState_def loadAndRenderTree_maps cyclePair_def demoNode_def Let_def
      assignFriendlyIds_def pad1 pad2)

lemma reloadedState_fields:
  "nodeMap reloadedState = [(''r'', demoNode ''r'' ''New'' [''d'']\<lparr>friendlyId := ''01''\<rparr>),
                             (''d'', demoNode ''d'' ''Completed'' []\<lparr>friendlyId := ''02''\<rparr>)]"
  "parentMap reloadedState ''d'' = Some ''r''"
  "stableRootId reloadedState = Some ''r''"
  "nodeStats reloadedState = Map.empty"
  "singleNodeMode reloadedState = False"
proof -
  show "nodeMap reloadedState = [(''r'', demoNode ''r'' ''New'' [''d'']\<lparr>friendlyId := ''01''\<rparr>),
                             (''d'', demoNode ''d'' ''Completed'' []\<lparr>friendlyId := ''02''\<rparr>)]"
    by (simp add: reloadedState_def loadAndRenderTree_maps rootAndLeaf_def demoNode_def Let_def
      assignFriendlyIds_def pad1 pad2)
  show "parentMap reloadedState ''d'' = Some ''r''"
    by (simp add: reloadedState_def loadAndRenderTree_maps rootAndLeaf_def demoNode_def)
  show "stableRootId reloadedState = Some ''r''"
    by (simp add: reloadedState_def loadAndRenderTree_def rootAndLeaf_def demoNode_def Let_def
        split: prod.splits)
  show "nodeStats reloadedState = Map.empty"
    by (simp add: reloadedState_def loadAndRenderTree_def rootAndLeaf_def demoNode_def Let_def
        fetchAllStats_def split: prod.splits)
  show "singleNodeMode reloadedState = False"
    by (simp add: reloadedState_def loadAndRenderTree_def rootAndLeaf_def demoNode_def Let_def
        emptyState_def split: prod.splits)
qed

text \<open>
  C1. Ancestor preservation does not hold for every store and every full render.
  First, the render of the full reload, \<open>loadAndRenderTree\<close>, calls \<open>renderNode\<close> without the
  marking pass that \<open>loadAndRenderVisuals\<close> runs: under the status filter \<open>Completed\<close>, with
  a root of status \<open>New\<close> whose child \<open>d\<close> has status \<open>Completed\<close>, the node \<open>d\<close> passes the
  filter, its recorded parent is the root, and the rendered tree is empty. Second, the
  marking pass itself has no bound: on the store that the reload builds from two nodes
  listing each other, where the parent map is a cycle, \<open>loadAndRenderVisuals\<close> never
  returns, so no tree is produced.
\<close>

theorem ancestors_lost_or_pass_hangs:
  "isNodeVisible reloadedState completedOnly ''d''
   \<and> parentMap reloadedState ''d'' = Some ''r''
   \<and> stableRootId reloadedState = Some ''r''
   \<and> snd (loadAndRenderTree emptyState completedOnly (Got rootAndLeaf) StatsError) = TreeView []
   \<and> isNodeVisible cycleState noFilters ''a''
   \<and> loadAndRenderVisuals cycleState noFilters (Some ''a'') StatsError = None"
proof (intro conjI)
  show "isNodeVisible reloadedState completedOnly ''d''"
    by (simp add: isNodeVisible_def reloadedState_fields completedOnly_def demoNode_def)
  show "parentMap reloadedState ''d'' = Some ''r''" by (rule reloadedState_fields)
  show "stableRootId reloadedState = Some ''r''" by (rule reloadedState_fields)
  show "snd (loadAndRenderTree emptyState completedOnly (Got rootAndLeaf) StatsError) = TreeView []"
    by (simp add: loadAndRenderTree_def rootAndLeaf_def demoNode_def Let_def assignFriendlyIds_def
        pad1 pad2 emptyState_def fetchAllStats_def renderNode.simps isNodeVisible_def
        completedOnly_def split: prod.splits)
  have cs: "nodeStats cycleState = Map.empty"
    by (simp add: cycleState_def loadAndRenderTree_def cyclePair_def demoNode_def Let_def
        fetchAllStats_def split: prod.splits)
  show v: "isNodeVisible cycleState noFilters ''a''"
    by (simp add: isNodeVisible_def cycleState_fields cs noFilters_def demoNode_def)
  have "markParentsVisible (cycleState\<lparr>renderedNodes := {}\<rparr>) ''a'' = None"
    by (rule markParentsVisible_cycle[where b = "''b''"]) (simp_all add: cycleState_fields)
  moreover have "isNodeVisible (cycleState\<lparr>renderedNodes := {}\<rparr>) noFilters ''a''"
    using v by simp
  ultimately show "loadAndRenderVisuals cycleState noFilters (Some ''a'') StatsError = None"
    by (simp add: loadAndRenderVisuals_def cycleState_fields)
qed

text \<open>
  On the same node map, the pass of \<open>loadAndRenderVisuals\<close> does keep the root: it is marked
  as the parent of the visible node and rendered with that node below it.
\<close>

lemma marked_pass_keeps_ancestor:
  "nodeMap reloadedState = nodeMap twoLevelState
   \<and> map_option (\<lambda>(st', v, f). v) (loadAndRenderVisuals twoLevelState completedOnly (Some ''r'') StatsError)
     = Some (TreeView
       [RNode ''r'' (demoNode ''r'' ''New'' [''d'']\<lparr>friendlyId := ''01'', forceVisible := True\<rparr>)
          [RNode ''d'' (demoNode ''d'' ''Completed'' []\<lparr>friendlyId := ''02''\<rparr>) []]])"
  by (simp add: loadAndRenderVisuals_def renderAfterMarking_def reloadedState_fields twoLevelState_def
      isNodeVisible_def completedOnly_def demoNode_def markParentsVisible.simps orElse_def
      truthy_def firstKey_def fetchAllStats_def Let_def renderNode.simps renderChildren.simps)

section \<open>Properties of the earlier renderer\<close>

text \<open>
  C3. A render pass of the earlier renderer changes the store: started on a node whose
  children list is \<open>["b", "a"]\<close>, it leaves the list of that node in \<open>nodeMap\<close> as
  \<open>["a", "b"]\<close>.
\<close>

theorem renderNode_v0_reorders_children:
  "map_of (nodeMap unsortedState) ''r'' = Some (demoNode ''r'' ''New'' [''b'', ''a''])
   \<and> map_of (nodeMap (snd (snd (renderNode_v0 unsortedState noFilters ''r'' 0 {})))) ''r''
       = Some (demoNode ''r'' ''New'' [''a'', ''b''])
   \<and> idsl (fst (renderNode_v0 unsortedState noFilters ''r'' 0 {})) = [''r'', ''a'', ''b'']"
proof (intro conjI)
  show "map_of (nodeMap unsortedState) ''r'' = Some (demoNode ''r'' ''New'' [''b'', ''a''])"
    by (simp add: unsortedState_def)
  have e: "renderNode_v0 unsortedState noFilters ''r'' 0 {}
     = ([RNode ''r'' (demoNode ''r'' ''New'' [''a'', ''b''])
           [RNode ''a'' (demoNode ''a'' ''New'' []) [], RNode ''b'' (demoNode ''b'' ''New'' []) []]],
        {''r'', ''a'', ''b''},
        unsortedState\<lparr>nodeMap := [(''r'', demoNode ''r'' ''New'' [''a'', ''b'']),
           (''a'', demoNode ''a'' ''New'' []), (''b'', demoNode ''b'' ''New'' [])]\<rparr>)"
    by (simp add: unsortedState_def demoNode_def isNodeVisible_v0_def noFilters_def insert_commute Let_def)
  show "map_of (nodeMap (snd (snd (renderNode_v0 unsortedState noFilters ''r'' 0 {})))) ''r''
       = Some (demoNode ''r'' ''New'' [''a'', ''b''])"
    unfolding e by simp
  show "idsl (fst (renderNode_v0 unsortedState noFilters ''r'' 0 {})) = [''r'', ''a'', ''b'']"
    unfolding e by simp
qed

text \<open>
  The current renderer on the same state sorts a copy: the children are drawn in sorted
  order and the node map after the pass is the node map before it.
\<close>

lemma renderNode_sorts_a_copy:
  "map_option (\<lambda>(st', v, f). (nodeMap st', v))
      (loadAndRenderVisuals unsortedState noFilters (Some ''r'') StatsError)
   = Some (nodeMap unsortedState,
           TreeView [RNode ''r'' (demoNode ''r'' ''New'' [''b'', ''a'']\<lparr>forceVisible := True\<rparr>)
             [RNode ''a'' (demoNode ''a'' ''New'' []) [], RNode ''b'' (demoNode ''b'' ''New'' []) []]])"
  by (simp add: unsortedState_def demoNode_def loadAndRenderVisuals_def renderAfterMarking_def
      isNodeVisible_def noFilters_def markParentsVisible.simps orElse_def truthy_def firstKey_def
      fetchAllStats_def clearForceVisible_def Let_def renderNode.simps renderChildren.simps)

section \<open>Properties of the search\<close>













end
